theory Spec2Isabelle
  imports Main "HOL-Library.Char_ord" "HOL-Library.List_Lexorder"
begin

section \<open>SureFile: session, configuration store and credential vault\<close>

text \<open>
  Shallow embedding of \<^verbatim>\<open>examples/surefile/src/maidsafe/surefile/surefile.cc\<close>.
  Member functions become state transformers on a record holding the fields of the
  \<^verbatim>\<open>SureFile\<close> object, the files it reads and writes, and the trace of the calls
  it makes on its collaborators (mutex, drive, file system, slots). An exception is the
  \<open>Inl\<close> branch of the result; the state returned with it is the state at the throw.
\<close>

subsection \<open>Errors, events, data\<close>

datatype error =
    CommonErrors_unknown
  | CommonErrors_uninitialised
  | CommonErrors_invalid_parameter
  | SureFileErrors_invalid_password
  | SureFileErrors_password_confirmation_failed
  | SureFileErrors_invalid_service
  | external_error string
    \<comment> \<open>an exception of the standard library or of a collaborator, named by its origin\<close>

type_synonym Identity = string

type_synonym Map = "(string \<times> string) list"
  \<comment> \<open>\<^verbatim>\<open>std::map<std::string, std::string>\<close>: storage path to alias, in key order\<close>

datatype event =
    MutexLock
  | MutexUnlock
  | DriveMount Identity
  | DriveAddService string string
  | DriveRemoveService string
  | DriveReInitialiseService string string Identity
  | FileRead string
  | FileWrite string string
  | configuration_error
  | on_service_added string

text \<open>
  Modelled from the spec: the \<^verbatim>\<open>Password\<close> class of the passport library (absent
  from the sources): a character buffer with a finalised flag; its text is read only
  once finalised.
\<close>

record Password =
  chars :: string
  finalised :: bool

definition Finalise :: "Password \<Rightarrow> Password" where
  "Finalise p = p\<lparr>finalised := True\<rparr>"

definition Password_string :: "Password \<Rightarrow> error + string" where
  "Password_string p =
     (if finalised p then Inr (chars p) else Inl (external_error ''Password::string''))"

text \<open>
  The collaborators of the class: hash and cipher, the wire encoding of the identity
  pair, the drive, the file system predicates, the password character class and the
  random source. A collaborator that can throw returns the exception as a value.
\<close>

record collaborators =
  Hash_SHA512 :: "string \<Rightarrow> string"
  AES256_KeySize :: nat
  AES256_IVSize :: nat
  SymmEncrypt :: "string \<Rightarrow> string \<Rightarrow> string \<Rightarrow> error + string"
  SymmDecrypt :: "string \<Rightarrow> string \<Rightarrow> string \<Rightarrow> error + string"
  SerializeAsString :: "string \<Rightarrow> string \<Rightarrow> string"
  ParseFromString :: "string \<Rightarrow> string \<times> string"
  ExcludedFilename :: "string \<Rightarrow> bool"
  fs_exists :: "string \<Rightarrow> bool"
  WriteFile_ok :: "string \<Rightarrow> bool"
  IsValid_kCharRegex :: "string \<Rightarrow> bool"
  RandomAlphaNumericString :: "nat \<Rightarrow> string"
  GetUserAppDir :: string
  Drive_new :: "Identity \<Rightarrow> error option"
  Drive_AddService :: "string \<Rightarrow> string \<Rightarrow> error option"
  Drive_RemoveService :: "string \<Rightarrow> error option"
  Drive_ReInitialiseService :: "string \<Rightarrow> string \<Rightarrow> Identity \<Rightarrow> error option"
  NDEBUG :: bool

record SureFile =
  logged_in :: bool
  password :: "Password option"
  confirmation_password :: "Password option"
  drive :: "Identity option"
  pending_service_additions :: "(string \<times> Identity \<times> Identity) list"
  files :: "string \<Rightarrow> string option"
  trace :: "event list"

type_synonym 'a action = "SureFile \<Rightarrow> (error + 'a) \<times> SureFile"

definition seq :: "'a action \<Rightarrow> ('a \<Rightarrow> 'b action) \<Rightarrow> 'b action" where
  "seq m f s = (case m s of (Inl e, s') \<Rightarrow> (Inl e, s') | (Inr x, s') \<Rightarrow> f x s')"

definition return :: "'a \<Rightarrow> 'a action" where
  "return x s = (Inr x, s)"

definition ThrowError :: "error \<Rightarrow> 'a action" where
  "ThrowError e s = (Inl e, s)"

definition lift :: "error + 'a \<Rightarrow> 'a action" where
  "lift r s = (r, s)"

definition emit :: "event \<Rightarrow> unit action" where
  "emit ev s = (Inr (), s\<lparr>trace := trace s @ [ev]\<rparr>)"

definition call :: "event \<Rightarrow> error option \<Rightarrow> unit action" where
  \<comment> \<open>a call on a collaborator: recorded, then its exception if it throws\<close>
  "call ev r s =
     (case r of None \<Rightarrow> (Inr (), s\<lparr>trace := trace s @ [ev]\<rparr>)
      | Some e \<Rightarrow> (Inl e, s\<lparr>trace := trace s @ [ev]\<rparr>))"

subsection \<open>Strings, paths and bounded string types\<close>

definition substr :: "string \<Rightarrow> nat \<Rightarrow> nat \<Rightarrow> error + string" where
  \<comment> \<open>\<^verbatim>\<open>std::string::substr(pos, n)\<close>: throws when \<open>pos\<close> is beyond the end\<close>
  "substr s pos n =
     (if length s < pos then Inl (external_error ''std::out_of_range'')
      else Inr (take n (drop pos s)))"

definition size_t_sub :: "nat \<Rightarrow> nat \<Rightarrow> nat" where
  \<comment> \<open>subtraction of \<^verbatim>\<open>size_t\<close> values (64 bit), wrapping below zero\<close>
  "size_t_sub a b = (a + 2 ^ 64 - b mod 2 ^ 64) mod 2 ^ 64"

definition BoundedString :: "nat \<Rightarrow> nat \<Rightarrow> string \<Rightarrow> error + string" where
  \<comment> \<open>constructor of the bounded string types of the common library: the size is checked\<close>
  "BoundedString lo hi s =
     (if lo \<le> length s \<and> length s \<le> hi then Inr s
      else Inl (external_error ''invalid_string_size''))"

definition NonEmptyString :: "string \<Rightarrow> error + string" where
  "NonEmptyString s =
     (if s = [] then Inl (external_error ''invalid_string_size'') else Inr s)"

definition Identity_ctor :: "string \<Rightarrow> error + Identity" where
  \<comment> \<open>Modelled from the spec: an identity is a fixed-length token; the length is the one
      the source passes to \<^verbatim>\<open>RandomAlphaNumericString\<close>\<close>
  "Identity_ctor s = BoundedString 64 64 s"

definition path_append :: "string \<Rightarrow> string \<Rightarrow> string" where
  \<comment> \<open>\<^verbatim>\<open>operator/\<close> of \<^verbatim>\<open>boost::filesystem::path\<close>\<close>
  "path_append p q =
     (if p = [] then q else if last p = CHR ''/'' then p @ q else p @ ''/'' @ q)"

definition kConfigFilePath :: "collaborators \<Rightarrow> string" where
  "kConfigFilePath c = path_append (GetUserAppDir c) ''MaidSafe/SureFile/surefile.conf''"

definition kCredentialsFilename :: string where
  "kCredentialsFilename = ''surefile.dat''"

definition kConfigFileComment :: string where
  "kConfigFileComment = ''# Please do NOT edit.'' @ [CHR 0x0A]"

subsection \<open>Key derivation\<close>

definition SecurePassword :: "collaborators \<Rightarrow> string action" where
  "SecurePassword c s =
     (case password s of
        None \<Rightarrow> (Inl (external_error ''null password''), s)
      | Some p \<Rightarrow>
          (case Password_string p of
             Inl e \<Rightarrow> (Inl e, s)
           | Inr t \<Rightarrow> (Inr (Hash_SHA512 c t), s)))"

definition SecureKey :: "collaborators \<Rightarrow> string \<Rightarrow> error + string" where
  "SecureKey c secure_password =
     (case substr secure_password 0 (AES256_KeySize c) of
        Inl e \<Rightarrow> Inl e
      | Inr k \<Rightarrow> BoundedString (AES256_KeySize c) (AES256_KeySize c) k)"

definition SecureIv :: "collaborators \<Rightarrow> string \<Rightarrow> error + string" where
  "SecureIv c secure_password =
     (case substr secure_password (AES256_KeySize c) (AES256_IVSize c) of
        Inl e \<Rightarrow> Inl e
      | Inr v \<Rightarrow> BoundedString (AES256_IVSize c) (AES256_IVSize c) v)"

definition derive :: "collaborators \<Rightarrow> (string \<times> string) action" where
  \<comment> \<open>the three lines that open every function using the cipher: password hash, key, iv\<close>
  "derive c =
     seq (SecurePassword c) (\<lambda>secure_password.
     seq (lift (SecureKey c secure_password)) (\<lambda>key.
     seq (lift (SecureIv c secure_password)) (\<lambda>iv.
     return (key, iv))))"

subsection \<open>The ordered map of the standard library\<close>

definition map_find :: "('k \<times> 'v) list \<Rightarrow> 'k \<Rightarrow> 'v option" where
  "map_find m k = map_of m k"

definition map_insert :: "'k::linorder \<Rightarrow> 'v \<Rightarrow> ('k \<times> 'v) list \<Rightarrow> ('k \<times> 'v) list \<times> bool" where
  \<comment> \<open>\<^verbatim>\<open>insert\<close>: an existing key keeps its value; the flag tells whether the pair went in\<close>
  "map_insert k v m =
     (case map_of m k of
        Some _ \<Rightarrow> (m, False)
      | None \<Rightarrow> (insort_key fst (k, v) m, True))"

definition map_erase :: "'k \<Rightarrow> ('k \<times> 'v) list \<Rightarrow> ('k \<times> 'v) list" where
  "map_erase k m = filter (\<lambda>kv. fst kv \<noteq> k) m"

subsection \<open>Files\<close>

definition ifstream_content :: "string \<Rightarrow> string action" where
  \<comment> \<open>what a \<^verbatim>\<open>std::ifstream\<close> on the path delivers: nothing when it cannot be opened\<close>
  "ifstream_content path s =
     (Inr (case files s path of None \<Rightarrow> [] | Some x \<Rightarrow> x),
      s\<lparr>trace := trace s @ [FileRead path]\<rparr>)"

definition ReadFile :: "string \<Rightarrow> string action" where
  \<comment> \<open>\<^verbatim>\<open>NonEmptyString ReadFile(path)\<close>: throws on a missing or empty file\<close>
  "ReadFile path s =
     (case files s path of
        None \<Rightarrow> (Inl (external_error ''ReadFile''), s\<lparr>trace := trace s @ [FileRead path]\<rparr>)
      | Some x \<Rightarrow> (NonEmptyString x, s\<lparr>trace := trace s @ [FileRead path]\<rparr>))"

definition ReadFile_into :: "string \<Rightarrow> string action" where
  \<comment> \<open>\<^verbatim>\<open>bool ReadFile(path, &content)\<close>, result ignored by its caller: the content stays
      empty when the read fails\<close>
  "ReadFile_into path s =
     (Inr (case files s path of None \<Rightarrow> [] | Some x \<Rightarrow> x),
      s\<lparr>trace := trace s @ [FileRead path]\<rparr>)"

definition WriteFile :: "collaborators \<Rightarrow> string \<Rightarrow> string \<Rightarrow> bool action" where
  "WriteFile c path content s =
     (if WriteFile_ok c path
      then (Inr True, s\<lparr>files := (files s)(path \<mapsto> content),
                         trace := trace s @ [FileWrite path content]\<rparr>)
      else (Inr False, s\<lparr>trace := trace s @ [FileWrite path content]\<rparr>))"

subsection \<open>The configuration file\<close>

function getlines :: "string \<Rightarrow> string list" where
  "getlines [] = []"
| "getlines (x # xs) =
     takeWhile (\<lambda>ch. ch \<noteq> CHR 0x0A) (x # xs) #
       (case dropWhile (\<lambda>ch. ch \<noteq> CHR 0x0A) (x # xs) of
          [] \<Rightarrow> []
        | _ # rest \<Rightarrow> getlines rest)"
  by pat_completeness auto
termination
proof (relation "measure length")
  fix x :: char and xs y rest
  assume "dropWhile (\<lambda>ch. ch \<noteq> CHR 0x0A) (x # xs) = y # rest"
  then have "length (y # rest) \<le> length (x # xs)"
    using length_dropWhile_le [of "\<lambda>ch. ch \<noteq> CHR 0x0A" "x # xs"] by simp
  then show "(rest, x # xs) \<in> measure length" by simp
qed simp

text \<open>
  Modelled from the spec: the parser \<^verbatim>\<open>grammer\<close> declared in the class header (absent
  from the sources). The mapping line is a run of entries \<open>key>value:\<close>, the grammar the
  writer renders with: a key is a non-empty run of characters other than \<open>>\<close>, a value a
  non-empty run of characters other than \<open>:\<close>. When the whole line is such a run the
  parse succeeds and the map attribute holds its entries. Otherwise the parse has failed,
  by a grammar mismatch at the first entry (the flag is false) or with trailing
  unconsumed input after some entries (the iterator stops short of the end), and the map
  attribute is left as it was passed: the spec has \<^verbatim>\<open>Read\<close> return an empty mapping on
  a parse failure.
\<close>

definition key_rule :: "string \<Rightarrow> (string \<times> string) option" where
  "key_rule s =
     (let k = takeWhile (\<lambda>ch. ch \<noteq> CHR ''>'') s
      in if k = [] then None else Some (k, dropWhile (\<lambda>ch. ch \<noteq> CHR ''>'') s))"

definition value_rule :: "string \<Rightarrow> (string \<times> string) option" where
  "value_rule s =
     (let v = takeWhile (\<lambda>ch. ch \<noteq> CHR '':'') s
      in if v = [] then None else Some (v, dropWhile (\<lambda>ch. ch \<noteq> CHR '':'') s))"

definition lit :: "char \<Rightarrow> string \<Rightarrow> string option" where
  "lit ch s = (case s of [] \<Rightarrow> None | x # r \<Rightarrow> if x = ch then Some r else None)"

definition pair_rule :: "string \<Rightarrow> ((string \<times> string) \<times> string) option" where
  "pair_rule s =
     (case key_rule s of
        None \<Rightarrow> None
      | Some (k, r1) \<Rightarrow>
          (case lit (CHR ''>'') r1 of
             None \<Rightarrow> None
           | Some r2 \<Rightarrow>
               (case value_rule r2 of
                  None \<Rightarrow> None
                | Some (v, r3) \<Rightarrow>
                    (case lit (CHR '':'') r3 of
                       None \<Rightarrow> None
                     | Some r4 \<Rightarrow> Some ((k, v), r4)))))"

function start_rule :: "string \<Rightarrow> Map \<Rightarrow> Map option \<times> string" where
  \<comment> \<open>the run of entries: the map when the input is consumed to its end, otherwise
      nothing and the input left where no entry parses\<close>
  "start_rule s m =
     (if s = [] then (Some m, [])
      else (case pair_rule s of
              None \<Rightarrow> (None, s)
            | Some ((k, v), r) \<Rightarrow> start_rule r (fst (map_insert k v m))))"
  by pat_completeness auto
termination
  apply (relation "measure (\<lambda>(s, m). length s)")
   apply simp
  subgoal for s m x2 kv r k v
    apply (auto simp: pair_rule_def key_rule_def value_rule_def lit_def Let_def
          split: option.splits if_splits list.splits)
    subgoal for x2
      using length_dropWhile_le [of "\<lambda>ch. ch \<noteq> CHR ''>''" s]
        length_dropWhile_le [of "\<lambda>ch. ch \<noteq> CHR '':''" x2]
      by simp
    done
  done

definition qi_parse :: "string \<Rightarrow> Map \<Rightarrow> bool \<times> string \<times> Map" where
  \<comment> \<open>\<^verbatim>\<open>qi::parse(it, end, parser, service_pairs)\<close>: the flag, the input left after
      \<open>it\<close>, the attribute\<close>
  "qi_parse s m =
     (case start_rule s m of
        (Some m', rest) \<Rightarrow> (True, rest, m')
      | (None, rest) \<Rightarrow> (rest \<noteq> s, rest, m))"

definition ReadConfigFile :: "collaborators \<Rightarrow> Map action" where
  "ReadConfigFile c =
     seq (ifstream_content (kConfigFilePath c)) (\<lambda>file_in.
       let lines = getlines file_in
       in if length lines < 2 then return []
          else (case qi_parse (lines ! 1) [] of
                  (result, rest, service_pairs) \<Rightarrow>
                    if \<not> result \<or> rest \<noteq> []
                    then seq (emit configuration_error) (\<lambda>_. return service_pairs)
                    else return service_pairs))"

definition karma_format :: "Map \<Rightarrow> string" where
  \<comment> \<open>\<^verbatim>\<open>*(karma::string << '>' << karma::string << ':')\<close> over the map, in key order\<close>
  "karma_format m = concat (map (\<lambda>(k, v). k @ ''>'' @ v @ '':'') m)"

subsection \<open>Password buffers\<close>

definition ResetPassword :: "unit action" where
  "ResetPassword s = (Inr (), s\<lparr>password := None\<rparr>)"

definition ResetConfirmationPassword :: "unit action" where
  "ResetConfirmationPassword s = (Inr (), s\<lparr>confirmation_password := None\<rparr>)"

definition FinaliseInput :: "bool \<Rightarrow> unit action" where
  "FinaliseInput login s =
     (case password s of
        None \<Rightarrow>
          seq (if confirmation_password s \<noteq> None then ResetConfirmationPassword else return ())
            (\<lambda>_. ThrowError SureFileErrors_invalid_password) s
      | Some p \<Rightarrow>
          (let s1 = s\<lparr>password := Some (Finalise p)\<rparr>
           in if \<not> login
              then (case confirmation_password s1 of
                      None \<Rightarrow>
                        seq ResetPassword
                          (\<lambda>_. ThrowError SureFileErrors_password_confirmation_failed) s1
                    | Some q \<Rightarrow> (Inr (), s1\<lparr>confirmation_password := Some (Finalise q)\<rparr>))
              else (Inr (), s1)))"

definition ConfirmInput :: "collaborators \<Rightarrow> unit action" where
  "ConfirmInput c s =
     (case password s of
        None \<Rightarrow> (Inl (external_error ''null password''), s)
      | Some p \<Rightarrow>
          (case Password_string p of
             Inl e \<Rightarrow> (Inl e, s)
           | Inr pt \<Rightarrow>
               if \<not> IsValid_kCharRegex c pt
               then seq ResetPassword (\<lambda>_. seq ResetConfirmationPassword
                      (\<lambda>_. ThrowError SureFileErrors_invalid_password)) s
               else (case confirmation_password s of
                       None \<Rightarrow> (Inl (external_error ''null confirmation password''), s)
                     | Some q \<Rightarrow>
                         (case Password_string q of
                            Inl e \<Rightarrow> (Inl e, s)
                          | Inr qt \<Rightarrow>
                              if pt \<noteq> qt
                              then seq ResetPassword (\<lambda>_. seq ResetConfirmationPassword
                                     (\<lambda>_. ThrowError
                                        SureFileErrors_password_confirmation_failed)) s
                              else (Inr (), s)))))"

subsection \<open>The credential vault\<close>

definition Serialise :: "collaborators \<Rightarrow> Identity \<Rightarrow> Identity \<Rightarrow> error + string" where
  "Serialise c drive_root_id service_root_id =
     NonEmptyString (SerializeAsString c drive_root_id service_root_id)"

definition Parse :: "collaborators \<Rightarrow> string \<Rightarrow> error + (Identity \<times> Identity)" where
  "Parse c serialised_credentials =
     (case ParseFromString c serialised_credentials of
        (d, r) \<Rightarrow>
          (case Identity_ctor d of
             Inl e \<Rightarrow> Inl e
           | Inr drive_root_id \<Rightarrow>
               (case Identity_ctor r of
                  Inl e \<Rightarrow> Inl e
                | Inr service_root_id \<Rightarrow> Inr (drive_root_id, service_root_id))))"

definition PutIds :: "collaborators \<Rightarrow> string \<Rightarrow> Identity \<Rightarrow> Identity \<Rightarrow> unit action" where
  "PutIds c storage_path drive_root_id service_root_id =
     seq (derive c) (\<lambda>(key, iv).
     seq (lift (Serialise c drive_root_id service_root_id)) (\<lambda>serialised_credentials.
     seq (lift (SymmEncrypt c serialised_credentials key iv)) (\<lambda>cipher_text.
     seq (WriteFile c (path_append storage_path kCredentialsFilename) cipher_text) (\<lambda>ok.
     if \<not> ok then ThrowError CommonErrors_invalid_parameter else return ()))))"

definition GetIds :: "collaborators \<Rightarrow> string \<Rightarrow> (Identity \<times> Identity) action" where
  "GetIds c storage_path =
     seq (derive c) (\<lambda>(key, iv).
     seq (ReadFile (path_append storage_path kCredentialsFilename)) (\<lambda>cipher_text.
     seq (lift (SymmDecrypt c cipher_text key iv)) (\<lambda>serialised_credentials.
     lift (Parse c serialised_credentials))))"

definition CheckValid :: "collaborators \<Rightarrow> string \<Rightarrow> string \<Rightarrow> unit action" where
  "CheckValid c storage_path service_alias =
     (if \<not> fs_exists c storage_path \<or> ExcludedFilename c service_alias
      then ThrowError SureFileErrors_invalid_service else return ())"

subsection \<open>The sentinel and the configuration store\<close>

definition CheckConfigFileContent :: "collaborators \<Rightarrow> string \<Rightarrow> unit action" where
  "CheckConfigFileContent c content =
     seq (derive c) (\<lambda>(key, iv).
     seq (lift (substr content 1 (size_t_sub (length content) 2))) (\<lambda>sub.
     seq (lift (NonEmptyString sub)) (\<lambda>cipher_text.
     seq (lift (SymmDecrypt c cipher_text key iv)) (\<lambda>plain_text.
     if plain_text = kConfigFileComment then return ()
     else seq ResetPassword (\<lambda>_. ThrowError SureFileErrors_invalid_password)))))"

definition EncryptComment :: "collaborators \<Rightarrow> string action" where
  "EncryptComment c =
     seq (derive c) (\<lambda>(key, iv).
     seq (lift (NonEmptyString kConfigFileComment)) (\<lambda>plain_text.
     lift (SymmEncrypt c plain_text key iv)))"

definition WriteConfigFile :: "collaborators \<Rightarrow> Map \<Rightarrow> unit action" where
  "WriteConfigFile c service_pairs =
     seq (if service_pairs = []
          then seq (EncryptComment c) (\<lambda>cipher. return (CHR ''#'' # cipher @ [CHR 0x0A]))
          else return (kConfigFileComment @ karma_format service_pairs)) (\<lambda>content.
     seq (WriteFile c (kConfigFilePath c) content) (\<lambda>ok.
     if \<not> ok then ThrowError CommonErrors_invalid_parameter else return ()))"

definition AddConfigEntry :: "collaborators \<Rightarrow> string \<Rightarrow> string \<Rightarrow> unit action" where
  "AddConfigEntry c storage_path service_alias =
     seq (ReadConfigFile c) (\<lambda>service_pairs.
     if map_find service_pairs storage_path \<noteq> None
     then ThrowError CommonErrors_invalid_parameter
     else (case map_insert storage_path service_alias service_pairs of
             (service_pairs', inserted) \<Rightarrow>
               if \<not> inserted then ThrowError CommonErrors_invalid_parameter
               else WriteConfigFile c service_pairs'))"

subsection \<open>The drive\<close>

definition drive_call :: "event \<Rightarrow> error option \<Rightarrow> unit action" where
  \<comment> \<open>a call through \<^verbatim>\<open>drive_\<close>, which must point to a drive\<close>
  "drive_call ev r s =
     (case drive s of
        None \<Rightarrow> (Inl (external_error ''null drive''), s)
      | Some _ \<Rightarrow> call ev r s)"

definition MountDrive :: "collaborators \<Rightarrow> Identity \<Rightarrow> unit action" where
  \<comment> \<open>the drive is constructed on the root identity, mounted and waited for; the choice
      of the mount path is the platform's\<close>
  "MountDrive c drive_root_id =
     seq (call (DriveMount drive_root_id) (Drive_new c drive_root_id))
       (\<lambda>_ s. (Inr (), s\<lparr>drive := Some drive_root_id\<rparr>))"

definition InitialiseService :: "collaborators \<Rightarrow> string \<Rightarrow> string \<Rightarrow> Identity \<Rightarrow> unit action" where
  "InitialiseService c storage_path service_alias service_root_id =
     seq (CheckValid c storage_path service_alias) (\<lambda>_.
     drive_call (DriveReInitialiseService service_alias storage_path service_root_id)
       (Drive_ReInitialiseService c service_alias storage_path service_root_id))"

subsection \<open>The session\<close>

definition lock_guard :: "'a action \<Rightarrow> 'a action" where
  \<comment> \<open>\<^verbatim>\<open>std::lock_guard<std::mutex> lock(mutex_)\<close> over the rest of its scope: released
      when the scope is left, by return or by exception\<close>
  "lock_guard body s =
     (case body (s\<lparr>trace := trace s @ [MutexLock]\<rparr>) of
        (r, s') \<Rightarrow> (r, s'\<lparr>trace := trace s' @ [MutexUnlock]\<rparr>))"

definition try_catch_all :: "'a action \<Rightarrow> 'a action \<Rightarrow> 'a action" where
  \<comment> \<open>\<^verbatim>\<open>try { body } catch(...) { handler }\<close>\<close>
  "try_catch_all body handler s =
     (case body s of (Inl e, s') \<Rightarrow> handler s' | (Inr x, s') \<Rightarrow> (Inr x, s'))"

definition assert_no_confirmation_password :: "collaborators \<Rightarrow> unit action" where
  \<comment> \<open>\<^verbatim>\<open>assert(!confirmation_password_)\<close>: compiled out under \<^verbatim>\<open>NDEBUG\<close>\<close>
  "assert_no_confirmation_password c s =
     (if \<not> NDEBUG c \<and> confirmation_password s \<noteq> None
      then (Inl (external_error ''assert''), s) else (Inr (), s))"

definition CreateUser :: "collaborators \<Rightarrow> unit action" where
  "CreateUser c s =
     (if logged_in s then (Inr (), s)
      else
        seq (FinaliseInput False) (\<lambda>_.
        seq (ConfirmInput c) (\<lambda>_.
        seq ResetConfirmationPassword (\<lambda>_.
        seq (ReadFile_into (kConfigFilePath c)) (\<lambda>config_content.
        if config_content \<noteq> [] then ThrowError CommonErrors_invalid_parameter
        else
          seq (lift (Identity_ctor (RandomAlphaNumericString c 64))) (\<lambda>drive_root_id.
          seq (MountDrive c drive_root_id) (\<lambda>_.
          seq (WriteConfigFile c []) (\<lambda>_ s'.
          (Inr (), s'\<lparr>logged_in := True\<rparr>)))))))) s)"

fun InitialiseServices :: "collaborators \<Rightarrow> Map \<Rightarrow> unit action" where
  \<comment> \<open>the \<^verbatim>\<open>while (++it != end)\<close> loop of \<^verbatim>\<open>Login\<close>\<close>
  "InitialiseServices c [] = return ()"
| "InitialiseServices c ((storage_path, service_alias) # rest) =
     seq (GetIds c storage_path) (\<lambda>ids.
     seq (InitialiseService c storage_path service_alias (snd ids)) (\<lambda>_.
     InitialiseServices c rest))"

definition Login :: "collaborators \<Rightarrow> unit action" where
  "Login c s =
     (if logged_in s then (Inr (), s)
      else
        seq (FinaliseInput True) (\<lambda>_.
        seq (assert_no_confirmation_password c) (\<lambda>_.
        seq (ReadConfigFile c) (\<lambda>service_pairs.
        seq (case service_pairs of
               [] \<Rightarrow>
                 seq (ReadFile (kConfigFilePath c)) (\<lambda>content.
                 seq (CheckConfigFileContent c content) (\<lambda>_.
                 seq (lift (Identity_ctor (RandomAlphaNumericString c 64))) (\<lambda>drive_root_id.
                 MountDrive c drive_root_id)))
             | (storage_path, service_alias) # rest \<Rightarrow>
                 seq (GetIds c storage_path) (\<lambda>ids.
                 seq (MountDrive c (fst ids)) (\<lambda>_.
                 seq (InitialiseService c storage_path service_alias (snd ids)) (\<lambda>_.
                 InitialiseServices c rest)))) (\<lambda>_ s'.
        (Inr (), s'\<lparr>logged_in := True\<rparr>))))) s)"

definition AddService_try_block :: "collaborators \<Rightarrow> string \<Rightarrow> string \<Rightarrow> unit action" where
  \<comment> \<open>the body of the \<^verbatim>\<open>try\<close> block of \<^verbatim>\<open>AddService\<close>\<close>
  "AddService_try_block c storage_path service_alias s =
     (case map_find (pending_service_additions s) service_alias of
        None \<Rightarrow> ThrowError CommonErrors_invalid_parameter s
      | Some (drive_root_id, service_root_id) \<Rightarrow>
          seq (drive_call (DriveAddService service_alias storage_path)
                 (Drive_AddService c service_alias storage_path)) (\<lambda>_.
          seq (PutIds c storage_path drive_root_id service_root_id) (\<lambda>_ s'.
          (Inr (), s'\<lparr>pending_service_additions :=
              map_erase service_alias (pending_service_additions s')\<rparr>))) s)"

definition AddService :: "collaborators \<Rightarrow> string \<Rightarrow> string \<Rightarrow> unit action" where
  "AddService c storage_path service_alias s =
     (if \<not> logged_in s then ThrowError CommonErrors_uninitialised s
      else
        seq (CheckValid c storage_path service_alias) (\<lambda>_.
        lock_guard
          (seq (try_catch_all (AddService_try_block c storage_path service_alias)
                  (ThrowError SureFileErrors_invalid_service)) (\<lambda>_.
           AddConfigEntry c storage_path service_alias))) s)"

definition AddServiceFailed :: "collaborators \<Rightarrow> string \<Rightarrow> unit action" where
  "AddServiceFailed c service_alias s =
     (if \<not> logged_in s then ThrowError CommonErrors_uninitialised s
      else
        seq (lock_guard
               (\<lambda>s1. case map_find (pending_service_additions s1) service_alias of
                        None \<Rightarrow> ThrowError CommonErrors_invalid_parameter s1
                      | Some _ \<Rightarrow>
                          (Inr (), s1\<lparr>pending_service_additions :=
                              map_erase service_alias (pending_service_additions s1)\<rparr>))) (\<lambda>_.
        drive_call (DriveRemoveService service_alias) (Drive_RemoveService c service_alias)) s)"

definition OnServiceAdded :: "string \<Rightarrow> Identity \<Rightarrow> Identity \<Rightarrow> unit action" where
  "OnServiceAdded service_alias drive_root_id service_root_id =
     seq (lock_guard
            (\<lambda>s1. (Inr (), s1\<lparr>pending_service_additions :=
                fst (map_insert service_alias (drive_root_id, service_root_id)
                       (pending_service_additions s1))\<rparr>))) (\<lambda>_.
     emit (on_service_added service_alias))"

subsection \<open>Observations on the trace\<close>

fun is_drive_event :: "event \<Rightarrow> bool" where
  "is_drive_event (DriveMount _) = True"
| "is_drive_event (DriveAddService _ _) = True"
| "is_drive_event (DriveRemoveService _) = True"
| "is_drive_event (DriveReInitialiseService _ _ _) = True"
| "is_drive_event _ = False"

definition drive_events :: "event list \<Rightarrow> event list" where
  "drive_events es = filter is_drive_event es"

fun is_file_event :: "event \<Rightarrow> bool" where
  "is_file_event (FileRead _) = True"
| "is_file_event (FileWrite _ _) = True"
| "is_file_event _ = False"

fun under_lock :: "bool \<Rightarrow> event list \<Rightarrow> event list" where
  \<comment> \<open>the drive calls and file accesses made while the mutex is held\<close>
  "under_lock held [] = []"
| "under_lock held (MutexLock # es) = under_lock True es"
| "under_lock held (MutexUnlock # es) = under_lock False es"
| "under_lock held (e # es) =
     (if held \<and> (is_drive_event e \<or> is_file_event e) then e # under_lock held es
      else under_lock held es)"

subsection \<open>A concrete world for evaluation\<close>

text \<open>
  A small instance of the collaborators, on which the functions above evaluate: the
  hash pads the password to 64 characters, the cipher prefixes the plaintext with the
  key and refuses a ciphertext that does not start with the key it is given, the wire
  encoding concatenates the two identities.
\<close>

definition test_hash :: "string \<Rightarrow> string" where
  "test_hash t = take 64 (t @ replicate 64 (CHR ''0''))"

definition test_encrypt :: "string \<Rightarrow> string \<Rightarrow> string \<Rightarrow> error + string" where
  "test_encrypt plain key iv = Inr (key @ plain)"

definition test_decrypt :: "string \<Rightarrow> string \<Rightarrow> string \<Rightarrow> error + string" where
  "test_decrypt cipher key iv =
     (if take (length key) cipher = key then Inr (drop (length key) cipher)
      else Inl (external_error ''symmetric_decryption_failed''))"

definition test_world :: collaborators where
  "test_world =
     \<lparr>Hash_SHA512 = test_hash,
      AES256_KeySize = 32,
      AES256_IVSize = 16,
      SymmEncrypt = test_encrypt,
      SymmDecrypt = test_decrypt,
      SerializeAsString = (\<lambda>d r. d @ r),
      ParseFromString = (\<lambda>x. (take 64 x, drop 64 x)),
      ExcludedFilename = (\<lambda>a. a = ''.'' \<or> a = ''..''),
      fs_exists = (\<lambda>p. p = ''/data/photos'' \<or> p = ''/data/music''),
      WriteFile_ok = (\<lambda>p. True),
      IsValid_kCharRegex = (\<lambda>t. True),
      RandomAlphaNumericString = (\<lambda>n. replicate n (CHR ''r'')),
      GetUserAppDir = ''/home/u'',
      Drive_new = (\<lambda>d. None),
      Drive_AddService = (\<lambda>a p. None),
      Drive_RemoveService = (\<lambda>a. None),
      Drive_ReInitialiseService = (\<lambda>a p r. None),
      NDEBUG = True\<rparr>"

definition rootA :: Identity where
  "rootA = replicate 64 (CHR ''A'')"

definition rootB :: Identity where
  "rootB = replicate 64 (CHR ''B'')"

definition rootC :: Identity where
  "rootC = replicate 64 (CHR ''C'')"

definition test_password :: Password where
  "test_password = \<lparr>chars = ''Abc123!'', finalised = True\<rparr>"

definition session :: "(string \<times> Identity \<times> Identity) list \<Rightarrow> (string \<Rightarrow> string option) \<Rightarrow> SureFile" where
  \<comment> \<open>a logged-in session with the given pending additions and files\<close>
  "session pending fs =
     \<lparr>logged_in = True,
      password = Some test_password,
      confirmation_password = None,
      drive = Some rootA,
      pending_service_additions = pending,
      files = fs,
      trace = []\<rparr>"

subsection \<open>Well-formed maps and entries\<close>

text \<open>
  A \<^verbatim>\<open>std::map\<close> holds its keys in strictly increasing order. An entry is storable
  when the writer's delimiters cannot be mistaken inside it: the path is not empty and
  has no \<open>>\<close>, the alias is not empty and has no \<open>:\<close>, and neither has a line feed.
\<close>

definition Map_ok :: "Map \<Rightarrow> bool" where
  "Map_ok m = sorted_wrt (<) (map fst m)"

definition storable :: "string \<times> string \<Rightarrow> bool" where
  "storable kv =
     (fst kv \<noteq> [] \<and> CHR ''>'' \<notin> set (fst kv) \<and> CHR 0x0A \<notin> set (fst kv) \<and>
      snd kv \<noteq> [] \<and> CHR '':'' \<notin> set (snd kv) \<and> CHR 0x0A \<notin> set (snd kv))"

definition read_only_config_world :: collaborators where
  "read_only_config_world = test_world\<lparr>WriteFile_ok := (\<lambda>p. p = ''/data/photos/surefile.dat'')\<rparr>"

definition unauthenticated_world :: collaborators where
  "unauthenticated_world =
     test_world\<lparr>SymmDecrypt := (\<lambda>cipher key iv.
        Inr (if take (length key) cipher = key then drop (length key) cipher else cipher))\<rparr>"

definition other_password :: Password where
  "other_password = \<lparr>chars = ''Xyz789?'', finalised = True\<rparr>"

definition cold_session :: SureFile where
  "cold_session =
     \<lparr>logged_in = False,
      password = Some \<lparr>chars = ''Abc123!'', finalised = False\<rparr>,
      confirmation_password = None,
      drive = None,
      pending_service_additions = [],
      files = [kConfigFilePath test_world \<mapsto>
                 kConfigFileComment @ ''/data/music>music:/data/photos>photos:'',
               ''/data/music/surefile.dat'' \<mapsto> take 32 (test_hash ''Abc123!'') @ rootA @ rootB,
               ''/data/photos/surefile.dat'' \<mapsto> take 32 (test_hash ''Abc123!'') @ rootA @ rootC],
      trace = []\<rparr>"

section \<open>Properties\<close>

lemmas world_defs = test_world_def test_hash_def test_encrypt_def test_decrypt_def
  session_def test_password_def kConfigFilePath_def path_append_def kCredentialsFilename_def
lemmas monad_defs = seq_def return_def ThrowError_def lift_def emit_def call_def
  lock_guard_def try_catch_all_def drive_call_def

lemmas eval_defs = AddService_def AddService_try_block_def CheckValid_def map_find_def
  PutIds_def GetIds_def derive_def SecurePassword_def Password_string_def SecureKey_def
  SecureIv_def substr_def BoundedString_def Serialise_def Parse_def Identity_ctor_def
  NonEmptyString_def WriteFile_def ReadFile_def
  AddConfigEntry_def ReadConfigFile_def ifstream_content_def map_insert_def map_erase_def
  WriteConfigFile_def karma_format_def kConfigFileComment_def rootA_def rootB_def rootC_def
  qi_parse_def pair_rule_def key_rule_def value_rule_def lit_def start_rule.simps

lemmas sentinel_defs = CheckConfigFileContent_def EncryptComment_def
  ResetPassword_def unauthenticated_world_def other_password_def

lemmas login_defs = Login_def FinaliseInput_def Finalise_def assert_no_confirmation_password_def
  MountDrive_def InitialiseService_def cold_session_def drive_events_def

subsection \<open>Key derivation\<close>

text \<open>
  C5: for a finalised password \<open>P\<close> the secure password is the hash of the text of
  \<open>P\<close>, the key is its first \<open>KeySize\<close> bytes, the initialisation vector the next
  \<open>IVSize\<close> bytes, the two slices are adjacent and do not overlap, and any two
  derivations from \<open>P\<close> give the same pair. The hash is as long as the two slices
  together, as the 64 bytes of SHA-512 are for a 32-byte key and a 16-byte vector.
\<close>

theorem key_derivation_deterministic:
  assumes "password s = Some P" and "password s' = Some P" and "finalised P"
    and "AES256_KeySize c + AES256_IVSize c \<le> length (Hash_SHA512 c (chars P))"
  shows "SecurePassword c s = (Inr (Hash_SHA512 c (chars P)), s)
       \<and> SecureKey c (Hash_SHA512 c (chars P))
           = Inr (take (AES256_KeySize c) (Hash_SHA512 c (chars P)))
       \<and> SecureIv c (Hash_SHA512 c (chars P))
           = Inr (take (AES256_IVSize c) (drop (AES256_KeySize c) (Hash_SHA512 c (chars P))))
       \<and> take (AES256_KeySize c) (Hash_SHA512 c (chars P))
           @ take (AES256_IVSize c) (drop (AES256_KeySize c) (Hash_SHA512 c (chars P)))
           = take (AES256_KeySize c + AES256_IVSize c) (Hash_SHA512 c (chars P))
       \<and> fst (derive c s') = fst (derive c s)"
proof -
  let ?h = "Hash_SHA512 c (chars P)"
  have sp: "SecurePassword c s = (Inr ?h, s)"
    using assms(1,3) by (simp add: SecurePassword_def Password_string_def)
  have sp': "SecurePassword c s' = (Inr ?h, s')"
    using assms(2,3) by (simp add: SecurePassword_def Password_string_def)
  have key: "SecureKey c ?h = Inr (take (AES256_KeySize c) ?h)"
    using assms(4) by (simp add: SecureKey_def substr_def BoundedString_def)
  have iv: "SecureIv c ?h = Inr (take (AES256_IVSize c) (drop (AES256_KeySize c) ?h))"
    using assms(4) by (simp add: SecureIv_def substr_def BoundedString_def)
  have slices: "take (AES256_KeySize c) ?h @ take (AES256_IVSize c) (drop (AES256_KeySize c) ?h)
      = take (AES256_KeySize c + AES256_IVSize c) ?h"
    by (simp add: take_add)
  have "fst (derive c s') = fst (derive c s)"
    by (simp add: derive_def seq_def sp sp' key iv lift_def return_def)
  with sp key iv slices show ?thesis by simp
qed

theorem key_derivation_deterministic_witness:
  "SecurePassword test_world (session [] Map.empty)
     = (Inr (test_hash ''Abc123!''), session [] Map.empty)
   \<and> SecureKey test_world (test_hash ''Abc123!'') = Inr (take 32 (test_hash ''Abc123!''))
   \<and> SecureIv test_world (test_hash ''Abc123!'')
     = Inr (take 16 (drop 32 (test_hash ''Abc123!'')))
   \<and> fst (derive test_world (session [(''photos'', rootA, rootB)] Map.empty))
     = fst (derive test_world (session [] Map.empty))"
  using key_derivation_deterministic [of "session [] Map.empty" test_password
      "session [(''photos'', rootA, rootB)] Map.empty" test_world]
  by (simp add: session_def test_password_def test_world_def test_hash_def)

subsection \<open>Calls on a session that is already logged in\<close>

text \<open>
  C9: \<^verbatim>\<open>CreateUser\<close> and \<^verbatim>\<open>Login\<close> on a session whose \<open>logged_in\<close> is already true
  return without error and leave the whole state as it was: the password buffers, the
  files, the drive and the trace of reads, writes, mounts and slot calls.
\<close>

theorem already_logged_in_is_noop:
  assumes "logged_in s"
  shows "CreateUser c s = (Inr (), s) \<and> Login c s = (Inr (), s)"
  using assms by (simp add: CreateUser_def Login_def)

theorem already_logged_in_is_noop_witness:
  "CreateUser test_world (session [] Map.empty) = (Inr (), session [] Map.empty)
   \<and> Login test_world (session [] Map.empty) = (Inr (), session [] Map.empty)"
  using already_logged_in_is_noop [of "session [] Map.empty" test_world]
  by (simp add: session_def)

subsection \<open>The callback for an added service\<close>

text \<open>
  C10: when \<^verbatim>\<open>OnServiceAdded\<close> is delivered for an alias that already has a pending
  addition, the table keeps the pair of identities it had (the delivered ones are
  dropped), and the \<open>on_service_added\<close> slot is still called with the alias, after the
  mutex is released.
\<close>

theorem OnServiceAdded_keeps_existing_entry:
  assumes "map_find (pending_service_additions s) service_alias = Some ids"
  shows "OnServiceAdded service_alias drive_root_id service_root_id s =
           (Inr (), s\<lparr>trace := trace s @
              [MutexLock, MutexUnlock, on_service_added service_alias]\<rparr>)
       \<and> pending_service_additions
           (snd (OnServiceAdded service_alias drive_root_id service_root_id s))
           = pending_service_additions s"
  using assms
  by (simp add: OnServiceAdded_def seq_def lock_guard_def emit_def map_insert_def map_find_def)

theorem OnServiceAdded_keeps_existing_entry_witness:
  "pending_service_additions
     (snd (OnServiceAdded ''photos'' rootC rootC (session [(''photos'', rootA, rootB)] Map.empty)))
     = [(''photos'', rootA, rootB)]
   \<and> trace (snd (OnServiceAdded ''photos'' rootC rootC
        (session [(''photos'', rootA, rootB)] Map.empty)))
     = [MutexLock, MutexUnlock, on_service_added ''photos'']"
  using OnServiceAdded_keeps_existing_entry [of "session [(''photos'', rootA, rootB)] Map.empty"
      "''photos''" "(rootA, rootB)" rootC rootC]
  by (simp add: session_def map_find_def)

subsection \<open>The configuration file: writing and reading back\<close>

lemma pair_rule_Nil: "pair_rule [] = None"
  by (simp add: pair_rule_def key_rule_def)

lemma start_rule_Nil: "start_rule [] m = (Some m, [])"
  by simp

lemma start_rule_None: "s \<noteq> [] \<Longrightarrow> pair_rule s = None \<Longrightarrow> start_rule s m = (None, s)"
  by simp

lemma start_rule_Some:
  "pair_rule s = Some ((k, v), r) \<Longrightarrow> start_rule s m = start_rule r (fst (map_insert k v m))"
  by (cases "s = []") (simp_all add: pair_rule_Nil)

declare start_rule.simps [simp del]

lemma pair_rule_entry:
  assumes "k \<noteq> []" "CHR ''>'' \<notin> set k" "v \<noteq> []" "CHR '':'' \<notin> set v"
  shows "pair_rule (k @ ''>'' @ v @ '':'' @ rest) = Some ((k, v), rest)"
proof -
  have k1: "takeWhile (\<lambda>ch. ch \<noteq> CHR ''>'') (k @ CHR ''>'' # v @ CHR '':'' # rest) = k"
    using assms(2) by (subst takeWhile_append2) auto
  have k2: "dropWhile (\<lambda>ch. ch \<noteq> CHR ''>'') (k @ CHR ''>'' # v @ CHR '':'' # rest)
      = CHR ''>'' # v @ CHR '':'' # rest"
    using assms(2) by (subst dropWhile_append2) auto
  have v1: "takeWhile (\<lambda>ch. ch \<noteq> CHR '':'') (v @ CHR '':'' # rest) = v"
    using assms(4) by (subst takeWhile_append2) auto
  have v2: "dropWhile (\<lambda>ch. ch \<noteq> CHR '':'') (v @ CHR '':'' # rest) = CHR '':'' # rest"
    using assms(4) by (subst dropWhile_append2) auto
  show ?thesis
    using assms(1,3) by (simp add: pair_rule_def key_rule_def value_rule_def lit_def k1 k2 v1 v2)
qed

lemma insort_key_at_end:
  "\<forall>x\<in>set m. fst x < k \<Longrightarrow> insort_key fst (k, v) m = m @ [(k, v)]"
  by (induction m) auto

lemma map_insert_at_end:
  assumes "\<forall>x\<in>set m. fst x < k"
  shows "fst (map_insert k v m) = m @ [(k, v)]"
proof -
  have "k \<notin> fst ` set m" using assms by auto
  then have "map_of m k = None" by (simp add: map_of_eq_None_iff)
  then show ?thesis using assms by (simp add: map_insert_def insort_key_at_end)
qed

lemma start_rule_karma_format:
  "list_all storable xs \<Longrightarrow> Map_ok (m @ xs) \<Longrightarrow> start_rule (karma_format xs) m = (Some (m @ xs), [])"
proof (induction xs arbitrary: m)
  case Nil
  then show ?case by (simp add: karma_format_def start_rule_Nil)
next
  case (Cons kv xs)
  obtain k v where kv: "kv = (k, v)" by (cases kv)
  from Cons.prems(1) kv have ok: "k \<noteq> []" "CHR ''>'' \<notin> set k" "v \<noteq> []" "CHR '':'' \<notin> set v"
    by (simp_all add: storable_def)
  have fmt: "karma_format (kv # xs) = k @ ''>'' @ v @ '':'' @ karma_format xs"
    by (simp add: karma_format_def kv)
  from Cons.prems(2) kv have lt: "\<forall>x\<in>set m. fst x < k"
    by (auto simp: Map_ok_def sorted_wrt_append)
  have ins: "fst (map_insert k v m) = m @ [(k, v)]"
    by (rule map_insert_at_end [OF lt])
  have "start_rule (karma_format (kv # xs)) m = start_rule (karma_format xs) (m @ [(k, v)])"
    unfolding fmt by (subst start_rule_Some [OF pair_rule_entry [OF ok]]) (simp add: ins)
  also have "\<dots> = (Some ((m @ [(k, v)]) @ xs), [])"
    using Cons.prems by (intro Cons.IH) (simp_all add: kv)
  finally show ?case by (simp add: kv)
qed

lemma karma_format_no_newline:
  "list_all storable xs \<Longrightarrow> CHR 0x0A \<notin> set (karma_format xs)"
  by (induction xs) (auto simp: karma_format_def storable_def)

lemma karma_format_nonempty:
  "xs \<noteq> [] \<Longrightarrow> karma_format xs \<noteq> []"
  by (cases xs) (auto simp: karma_format_def)

lemma getlines_single:
  assumes "body \<noteq> []" "CHR 0x0A \<notin> set body"
  shows "getlines body = [body]"
proof -
  have "takeWhile (\<lambda>ch. ch \<noteq> CHR 0x0A) body = body" "dropWhile (\<lambda>ch. ch \<noteq> CHR 0x0A) body = []"
    using assms(2) by auto
  then show ?thesis using assms(1) by (cases body) simp_all
qed

lemma getlines_comment:
  assumes "body \<noteq> []" "CHR 0x0A \<notin> set body"
  shows "getlines (kConfigFileComment @ body) = [''# Please do NOT edit.'', body]"
  using getlines_single [OF assms] by (simp add: kConfigFileComment_def)

text \<open>
  C3, as the code has it: the writer escapes nothing, so the round trip holds for the
  maps whose entries are storable. For every non-empty map with storable entries,
  written successfully, reading the file back gives exactly the map, and the
  \<open>configuration_error\<close> slot is not called. A path may contain \<open>:\<close> and an alias
  may contain \<open>>\<close>.
\<close>

theorem config_round_trip_plain_entries:
  assumes "service_pairs \<noteq> []" and "Map_ok service_pairs" and "list_all storable service_pairs"
    and "WriteFile_ok c (kConfigFilePath c)"
  shows "fst (WriteConfigFile c service_pairs s) = Inr ()
       \<and> fst (ReadConfigFile c (snd (WriteConfigFile c service_pairs s))) = Inr service_pairs
       \<and> trace (snd (ReadConfigFile c (snd (WriteConfigFile c service_pairs s))))
          = trace s @ [FileWrite (kConfigFilePath c) (kConfigFileComment @ karma_format service_pairs),
                       FileRead (kConfigFilePath c)]"
proof -
  let ?content = "kConfigFileComment @ karma_format service_pairs"
  let ?s1 = "s\<lparr>files := (files s)(kConfigFilePath c \<mapsto> ?content),
      trace := trace s @ [FileWrite (kConfigFilePath c) ?content]\<rparr>"
  have w: "WriteConfigFile c service_pairs s = (Inr (), ?s1)"
    using assms(1,4) by (simp add: WriteConfigFile_def WriteFile_def monad_defs)
  have lines: "getlines ?content = [''# Please do NOT edit.'', karma_format service_pairs]"
    using assms(1,3) by (intro getlines_comment karma_format_nonempty karma_format_no_newline)
  have parse: "start_rule (karma_format service_pairs) [] = (Some service_pairs, [])"
    using start_rule_karma_format [of service_pairs "[]"] assms(2,3) by simp
  have r: "ReadConfigFile c ?s1 = (Inr service_pairs, ?s1\<lparr>trace := trace ?s1 @ [FileRead (kConfigFilePath c)]\<rparr>)"
    by (simp add: ReadConfigFile_def ifstream_content_def monad_defs lines qi_parse_def parse)
  show ?thesis by (simp add: w r)
qed

theorem config_round_trip_plain_entries_witness:
  "fst (ReadConfigFile test_world
          (snd (WriteConfigFile test_world
             [(''C:/music'', ''my>music''), (''C:/photos'', ''photos'')] (session [] Map.empty))))
     = Inr [(''C:/music'', ''my>music''), (''C:/photos'', ''photos'')]"
  using config_round_trip_plain_entries [of "[(''C:/music'', ''my>music''), (''C:/photos'', ''photos'')]"
      test_world "session [] Map.empty"]
  by (simp add: Map_ok_def storable_def test_world_def)

text \<open>
  C3 as stated fails: a path with \<open>>\<close> is written as the same line as a shorter path
  with a longer alias, and is read back as that one; an entry whose alias has a
  \<open>:\<close> or a line feed, whose path has a line feed, or whose path or alias is empty
  is lost.
\<close>

theorem config_round_trip_counterexample:
  "fst (ReadConfigFile test_world
          (snd (WriteConfigFile test_world [(''a>b'', ''c'')] (session [] Map.empty))))
     = Inr [(''a'', ''b>c'')]
   \<and> karma_format [(''a>b'', ''c'')] = karma_format [(''a'', ''b>c'')]
   \<and> fst (ReadConfigFile test_world
          (snd (WriteConfigFile test_world [(''a'', ''b:c'')] (session [] Map.empty))))
     = Inr []
   \<and> fst (ReadConfigFile test_world
          (snd (WriteConfigFile test_world [(''a'', [CHR ''b'', CHR 0x0A, CHR ''c''])]
             (session [] Map.empty))))
     = Inr []
   \<and> fst (ReadConfigFile test_world
          (snd (WriteConfigFile test_world [([CHR ''a'', CHR 0x0A, CHR ''b''], ''c'')]
             (session [] Map.empty))))
     = Inr []
   \<and> fst (ReadConfigFile test_world
          (snd (WriteConfigFile test_world [(''a'', [])] (session [] Map.empty))))
     = Inr []
   \<and> fst (ReadConfigFile test_world
          (snd (WriteConfigFile test_world [([], ''c'')] (session [] Map.empty))))
     = Inr []"
  by (simp add: eval_defs world_defs monad_defs)

subsection \<open>The configuration file: a mapping line that does not parse\<close>

lemma start_rule_complete:
  "start_rule s m = (Some m', rest) \<Longrightarrow> rest = []"
proof (induction s m rule: start_rule.induct)
  case (1 s m)
  show ?case
  proof (cases "s = []")
    case True
    with 1(2) show ?thesis by (simp add: start_rule_Nil)
  next
    case False
    show ?thesis
    proof (cases "pair_rule s")
      case None
      with 1(2) False show ?thesis by (simp add: start_rule_None)
    next
      case (Some a)
      obtain k v r where a: "a = ((k, v), r)" by (cases a) auto
      from 1(2) Some a have "start_rule r (fst (map_insert k v m)) = (Some m', rest)"
        by (simp add: start_rule_Some)
      with 1(1) False Some a show ?thesis by simp
    qed
  qed
qed

lemma qi_parse_failure:
  assumes "qi_parse s m = (result, rest, service_pairs)"
    and "\<not> result \<or> rest \<noteq> []"
  shows "service_pairs = m"
proof (cases "start_rule s m")
  case (Pair r rest')
  show ?thesis
  proof (cases r)
    case None
    with Pair assms(1) show ?thesis by (simp add: qi_parse_def)
  next
    case (Some m')
    with Pair have "rest' = []" by (simp add: start_rule_complete)
    with Pair Some assms show ?thesis by (simp add: qi_parse_def)
  qed
qed

text \<open>
  C6: when the mapping line of the configuration file fails to parse, by a grammar
  mismatch (the flag of the parse is false) or with trailing input left unconsumed after
  a partial parse, \<^verbatim>\<open>ReadConfigFile\<close> calls the \<open>configuration_error\<close> slot, raises
  no error, and returns an empty mapping.
\<close>

theorem ReadConfigFile_parse_failure:
  assumes "files s (kConfigFilePath c) = Some content"
    and "getlines content = l0 # l1 # ls"
    and "\<not> fst (qi_parse l1 []) \<or> fst (snd (qi_parse l1 [])) \<noteq> []"
  shows "ReadConfigFile c s =
           (Inr [],
            s\<lparr>trace := trace s @ [FileRead (kConfigFilePath c), configuration_error]\<rparr>)"
proof -
  obtain result rest service_pairs where q: "qi_parse l1 [] = (result, rest, service_pairs)"
    by (cases "qi_parse l1 []") auto
  from assms(3) q have failed: "\<not> result \<or> rest \<noteq> []"
    by simp
  have "service_pairs = []"
    by (rule qi_parse_failure [OF q failed])
  with assms(1,2) q failed show ?thesis
    by (auto simp: ReadConfigFile_def ifstream_content_def monad_defs)
qed

theorem ReadConfigFile_parse_failure_witness:
  "qi_parse ''x>y:z>w:tail>'' [] = (True, ''tail>'', [])
   \<and> ReadConfigFile test_world
       (session [] [kConfigFilePath test_world \<mapsto> kConfigFileComment @ ''x>y:z>w:tail>''])
     = (Inr [],
        (session [] [kConfigFilePath test_world \<mapsto> kConfigFileComment @ ''x>y:z>w:tail>''])
          \<lparr>trace := [FileRead (kConfigFilePath test_world), configuration_error]\<rparr>)
   \<and> qi_parse ''junk'' [] = (False, ''junk'', [])
   \<and> ReadConfigFile test_world
       (session [] [kConfigFilePath test_world \<mapsto> kConfigFileComment @ ''junk''])
     = (Inr [],
        (session [] [kConfigFilePath test_world \<mapsto> kConfigFileComment @ ''junk''])
          \<lparr>trace := [FileRead (kConfigFilePath test_world), configuration_error]\<rparr>)"
  using ReadConfigFile_parse_failure [of
      "session [] [kConfigFilePath test_world \<mapsto> kConfigFileComment @ ''x>y:z>w:tail>'']"
      test_world "kConfigFileComment @ ''x>y:z>w:tail>''" "''# Please do NOT edit.''"
      "''x>y:z>w:tail>''" "[]"]
    ReadConfigFile_parse_failure [of
      "session [] [kConfigFilePath test_world \<mapsto> kConfigFileComment @ ''junk'']"
      test_world "kConfigFileComment @ ''junk''" "''# Please do NOT edit.''" "''junk''" "[]"]
  by (simp add: session_def kConfigFileComment_def qi_parse_def start_rule.simps pair_rule_def
      key_rule_def value_rule_def lit_def map_insert_def)

subsection \<open>Adding a service\<close>

text \<open>
  C1: evaluation of \<^verbatim>\<open>AddService\<close> on a logged-in session, an existing path, an
  alias that is not excluded and an empty table of pending additions. The
  \<open>invalid_parameter\<close> thrown at the failed lookup is thrown inside the \<^verbatim>\<open>try\<close>
  block and leaves the function as \<open>invalid_service\<close>; the table, the files and the
  drive are untouched, the mutex is taken and released.
\<close>

theorem AddService_without_pending_entry:
  "AddService test_world ''/data/photos'' ''photos'' (session [] Map.empty)
     = (Inl SureFileErrors_invalid_service,
        (session [] Map.empty)\<lparr>trace := [MutexLock, MutexUnlock]\<rparr>)"
  by (simp add: AddService_def AddService_try_block_def CheckValid_def map_find_def
      world_defs monad_defs)

lemma AddService_no_pending:
  assumes "logged_in s" "fs_exists c storage_path" "\<not> ExcludedFilename c service_alias"
    "map_find (pending_service_additions s) service_alias = None"
  shows "AddService c storage_path service_alias s =
    (Inl SureFileErrors_invalid_service, s\<lparr>trace := trace s @ [MutexLock, MutexUnlock]\<rparr>)"
  using assms
  by (simp add: AddService_def AddService_try_block_def CheckValid_def monad_defs)

lemma ReadConfigFile_returns: "\<exists>m s'. ReadConfigFile c s = (Inr m, s')"
  by (simp add: ReadConfigFile_def ifstream_content_def monad_defs Let_def split: prod.splits)

lemma WriteConfigFile_nonempty_error:
  "service_pairs \<noteq> [] \<Longrightarrow> fst (WriteConfigFile c service_pairs s) = Inl e
     \<Longrightarrow> e = CommonErrors_invalid_parameter"
  by (simp add: WriteConfigFile_def WriteFile_def monad_defs split: if_splits)

lemma AddConfigEntry_error:
  assumes "fst (AddConfigEntry c storage_path service_alias s) = Inl e"
  shows "e = CommonErrors_invalid_parameter"
proof -
  obtain m s1 where r: "ReadConfigFile c s = (Inr m, s1)"
    using ReadConfigFile_returns by blast
  show ?thesis
  proof (cases "map_find m storage_path")
    case None
    then have ins: "map_insert storage_path service_alias m
        = (insort_key fst (storage_path, service_alias) m, True)"
      by (simp add: map_insert_def map_find_def)
    have ne: "insort_key fst (storage_path, service_alias) m \<noteq> []"
      by (cases m) auto
    from assms have "fst (WriteConfigFile c (insort_key fst (storage_path, service_alias) m) s1) = Inl e"
      by (simp add: AddConfigEntry_def seq_def r None ins)
    then show ?thesis by (rule WriteConfigFile_nonempty_error [OF ne])
  next
    case (Some a)
    with assms show ?thesis
      by (simp add: AddConfigEntry_def seq_def r ThrowError_def)
  qed
qed

text \<open>
  C2, as the code has it: a failed \<^verbatim>\<open>AddService\<close> on a logged-in session raises
  \<open>invalid_service\<close> when the failure is in the validity check or inside the
  \<^verbatim>\<open>try\<close> block (drive attach, credential file, removal of the pending entry), and
  \<open>invalid_parameter\<close> when the \<^verbatim>\<open>try\<close> block has completed and the failure is in
  \<^verbatim>\<open>AddConfigEntry\<close>, which runs after it.
\<close>

theorem AddService_failure_kinds:
  assumes "logged_in s"
    and "fst (AddService c storage_path service_alias s) = Inl e"
  shows "e = (if fst (CheckValid c storage_path service_alias s) = Inr ()
               \<and> fst (AddService_try_block c storage_path service_alias
                        (s\<lparr>trace := trace s @ [MutexLock]\<rparr>)) = Inr ()
              then CommonErrors_invalid_parameter
              else SureFileErrors_invalid_service)"
proof (cases "fst (CheckValid c storage_path service_alias s) = Inr ()")
  case False
  then have "CheckValid c storage_path service_alias s = (Inl SureFileErrors_invalid_service, s)"
    by (simp add: CheckValid_def monad_defs split: if_splits)
  then have "AddService c storage_path service_alias s = (Inl SureFileErrors_invalid_service, s)"
    using assms(1) by (simp add: AddService_def seq_def)
  with assms(2) False show ?thesis by simp
next
  case True
  then have cv: "CheckValid c storage_path service_alias s = (Inr (), s)"
    by (simp add: CheckValid_def monad_defs split: if_splits)
  let ?s1 = "s\<lparr>trace := trace s @ [MutexLock]\<rparr>"
  obtain r s2 where tb: "AddService_try_block c storage_path service_alias ?s1 = (r, s2)"
    by (cases "AddService_try_block c storage_path service_alias ?s1")
  show ?thesis
  proof (cases r)
    case (Inl x)
    then have "fst (AddService c storage_path service_alias s) = Inl SureFileErrors_invalid_service"
      using assms(1) cv tb
      by (simp add: AddService_def seq_def lock_guard_def try_catch_all_def ThrowError_def)
    with assms(2) True tb Inl show ?thesis by simp
  next
    case (Inr u)
    then have "fst (AddService c storage_path service_alias s)
        = fst (AddConfigEntry c storage_path service_alias s2)"
      using assms(1) cv tb
      by (simp add: AddService_def seq_def lock_guard_def try_catch_all_def split: prod.splits)
    with assms(2) have "e = CommonErrors_invalid_parameter"
      using AddConfigEntry_error by simp
    with True tb Inr show ?thesis by simp
  qed
qed

theorem AddService_failure_kinds_witness:
  "fst (AddService read_only_config_world ''/data/photos'' ''photos''
      (session [(''photos'', rootA, rootB)] Map.empty)) = Inl CommonErrors_invalid_parameter"
  using AddService_failure_kinds [of "session [(''photos'', rootA, rootB)] Map.empty"
      read_only_config_world "''/data/photos''" "''photos''" CommonErrors_invalid_parameter]
  by (simp add: eval_defs read_only_config_world_def world_defs monad_defs)

text \<open>
  C2 as stated fails: with the pending entry present and the storage path already in
  the configuration file, the drive attaches the service, the credential file is
  written, the pending entry is removed, and the caller gets \<open>invalid_parameter\<close>.
\<close>

theorem AddService_failure_kinds_counterexample:
  "fst (AddService test_world ''/data/photos'' ''photos''
      (session [(''photos'', rootA, rootB)]
         [kConfigFilePath test_world \<mapsto> kConfigFileComment @ ''/data/photos>old:'']))
   = Inl CommonErrors_invalid_parameter"
  by (simp add: eval_defs world_defs monad_defs)

subsection \<open>The scope of the mutex\<close>

lemma AddServiceFailed_lock_scope:
  "\<exists>es. trace (snd (AddServiceFailed c service_alias s)) = trace s @ es
        \<and> under_lock False es = []"
  by (auto simp: AddServiceFailed_def map_find_def monad_defs split: option.splits)

lemma OnServiceAdded_lock_scope:
  "\<exists>es. trace (snd (OnServiceAdded service_alias drive_root_id service_root_id s))
          = trace s @ es
        \<and> under_lock False es = []"
  by (simp add: OnServiceAdded_def monad_defs)

text \<open>
  C8: evaluation of a successful \<^verbatim>\<open>AddService\<close>. Its lock guard lives to the end of
  the function, so the drive attach, the write of the credential file and the read and
  write of the configuration file all happen with the mutex held.
  \<^verbatim>\<open>AddServiceFailed\<close> and \<^verbatim>\<open>OnServiceAdded\<close> close the scope of their guard before
  they call the drive or the slot.
\<close>

theorem AddService_holds_mutex_across_io:
  "under_lock False (trace (snd (AddService test_world ''/data/photos'' ''photos''
      (session [(''photos'', rootA, rootB)] Map.empty))))
   = [DriveAddService ''photos'' ''/data/photos'',
      FileWrite ''/data/photos/surefile.dat'' (take 32 (test_hash ''Abc123!'') @ rootA @ rootB),
      FileRead ''/home/u/MaidSafe/SureFile/surefile.conf'',
      FileWrite ''/home/u/MaidSafe/SureFile/surefile.conf''
        (kConfigFileComment @ ''/data/photos>photos:'')]"
  by (simp add: eval_defs world_defs monad_defs)

subsection \<open>The sentinel of an empty mapping\<close>

lemma derive_finalised:
  assumes "password s = Some P" and "finalised P"
    and "AES256_KeySize c + AES256_IVSize c \<le> length (Hash_SHA512 c (chars P))"
  shows "derive c s =
     (Inr (take (AES256_KeySize c) (Hash_SHA512 c (chars P)),
           take (AES256_IVSize c) (drop (AES256_KeySize c) (Hash_SHA512 c (chars P)))), s)"
  using assms
  by (simp add: derive_def SecurePassword_def Password_string_def SecureKey_def SecureIv_def
      substr_def BoundedString_def monad_defs)

lemma sentinel_substr:
  assumes "length cipher < 2 ^ 64"
  shows "substr (CHR ''#'' # cipher @ [CHR 0x0A]) 1
       (size_t_sub (length (CHR ''#'' # cipher @ [CHR 0x0A])) 2) = Inr cipher"
  using assms by (simp add: substr_def size_t_sub_def)

lemma derive_state: "snd (derive c s) = s"
  by (simp add: derive_def SecurePassword_def monad_defs split: option.splits sum.splits)

lemma EncryptComment_state: "snd (EncryptComment c s) = s"
proof -
  obtain r where d: "derive c s = (r, s)"
    using derive_state [of c s] by (cases "derive c s") simp
  show ?thesis
    by (cases r) (simp_all add: EncryptComment_def d monad_defs split: prod.splits sum.splits)
qed

text \<open>
  C4, as the code has it: let the sentinel be the one \<^verbatim>\<open>WriteConfigFile\<close> writes for
  the empty mapping, with a cipher that decrypts what it encrypted under the same key.
  Verification under the password that wrote it succeeds and changes nothing. Under any
  password the outcome follows the decryption: a plaintext other than the comment raises
  \<open>invalid_password\<close> and discards the password buffer; a decryption that itself fails
  leaves the function as the decryption's own error, with the password buffer kept.
\<close>

theorem CheckConfigFileContent_sentinel:
  assumes sound: "\<And>plain key iv x. SymmEncrypt c plain key iv = Inr x
                    \<Longrightarrow> SymmDecrypt c x key iv = Inr plain"
    and written: "fst (EncryptComment c s0) = Inr cipher"
    and size: "cipher \<noteq> []" "length cipher < 2 ^ 64"
    and writable: "WriteFile_ok c (kConfigFilePath c)"
    and current: "password s = Some P" "finalised P"
      "AES256_KeySize c + AES256_IVSize c \<le> length (Hash_SHA512 c (chars P))"
  shows "files (snd (WriteConfigFile c [] s0)) (kConfigFilePath c)
           = Some (CHR ''#'' # cipher @ [CHR 0x0A])
       \<and> CheckConfigFileContent c (CHR ''#'' # cipher @ [CHR 0x0A]) s =
           (case SymmDecrypt c cipher
                   (take (AES256_KeySize c) (Hash_SHA512 c (chars P)))
                   (take (AES256_IVSize c) (drop (AES256_KeySize c) (Hash_SHA512 c (chars P)))) of
              Inl e \<Rightarrow> (Inl e, s)
            | Inr plain_text \<Rightarrow>
                if plain_text = kConfigFileComment then (Inr (), s)
                else (Inl SureFileErrors_invalid_password, s\<lparr>password := None\<rparr>))
       \<and> (password s0 = password s \<longrightarrow>
            CheckConfigFileContent c (CHR ''#'' # cipher @ [CHR 0x0A]) s = (Inr (), s))"
proof -
  let ?key = "take (AES256_KeySize c) (Hash_SHA512 c (chars P))"
  let ?iv = "take (AES256_IVSize c) (drop (AES256_KeySize c) (Hash_SHA512 c (chars P)))"
  let ?content = "CHR ''#'' # cipher @ [CHR 0x0A]"
  have enc: "EncryptComment c s0 = (Inr cipher, s0)"
    using written EncryptComment_state [of c s0] by (cases "EncryptComment c s0") simp
  have written_file: "files (snd (WriteConfigFile c [] s0)) (kConfigFilePath c) = Some ?content"
    using writable by (simp add: WriteConfigFile_def WriteFile_def enc monad_defs)
  have d: "derive c s = (Inr (?key, ?iv), s)"
    by (rule derive_finalised [OF current])
  have check: "CheckConfigFileContent c ?content s =
      (case SymmDecrypt c cipher ?key ?iv of
         Inl e \<Rightarrow> (Inl e, s)
       | Inr plain_text \<Rightarrow>
           if plain_text = kConfigFileComment then (Inr (), s)
           else (Inl SureFileErrors_invalid_password, s\<lparr>password := None\<rparr>))"
  proof -
    have sub: "substr ?content (Suc 0) (size_t_sub (Suc (Suc (length cipher))) 2) = Inr cipher"
      using sentinel_substr [OF size(2)] by simp
    show ?thesis
      using size(1)
      by (cases "SymmDecrypt c cipher ?key ?iv")
        (simp_all add: CheckConfigFileContent_def seq_def d lift_def sub
          NonEmptyString_def return_def ResetPassword_def ThrowError_def)
  qed
  have same: "CheckConfigFileContent c ?content s = (Inr (), s)" if eq: "password s0 = password s"
  proof -
    have d0: "derive c s0 = (Inr (?key, ?iv), s0)"
      using current eq by (intro derive_finalised) simp_all
    have "SymmEncrypt c kConfigFileComment ?key ?iv = Inr cipher"
      using written
      by (simp add: EncryptComment_def seq_def d0 lift_def NonEmptyString_def
          kConfigFileComment_def)
    then have "SymmDecrypt c cipher ?key ?iv = Inr kConfigFileComment"
      by (rule sound)
    then show ?thesis by (simp add: check)
  qed
  from written_file check same show ?thesis by blast
qed

theorem CheckConfigFileContent_sentinel_witness:
  "CheckConfigFileContent test_world
      (CHR ''#'' # (take 32 (test_hash ''Abc123!'') @ kConfigFileComment) @ [CHR 0x0A])
      (session [] Map.empty)
     = (Inr (), session [] Map.empty)
   \<and> CheckConfigFileContent unauthenticated_world
      (CHR ''#'' # (take 32 (test_hash ''Abc123!'') @ kConfigFileComment) @ [CHR 0x0A])
      ((session [] Map.empty)\<lparr>password := Some other_password\<rparr>)
     = (Inl SureFileErrors_invalid_password, (session [] Map.empty)\<lparr>password := None\<rparr>)"
  using CheckConfigFileContent_sentinel [of test_world "session [] Map.empty"
      "take 32 (test_hash ''Abc123!'') @ kConfigFileComment" "session [] Map.empty" test_password]
    CheckConfigFileContent_sentinel [of unauthenticated_world "session [] Map.empty"
      "take 32 (test_hash ''Abc123!'') @ kConfigFileComment"
      "(session [] Map.empty)\<lparr>password := Some other_password\<rparr>" other_password]
  by (simp add: eval_defs sentinel_defs world_defs monad_defs)

text \<open>
  C4 as stated fails: under another password, with a cipher that rejects the ciphertext,
  the error raised is the cipher's, not \<open>invalid_password\<close>, and the password buffer
  is still there.
\<close>

theorem CheckConfigFileContent_sentinel_counterexample:
  "files (snd (WriteConfigFile test_world [] (session [] Map.empty))) (kConfigFilePath test_world)
     = Some (CHR ''#'' # (take 32 (test_hash ''Abc123!'') @ kConfigFileComment) @ [CHR 0x0A])
   \<and> CheckConfigFileContent test_world
      (CHR ''#'' # (take 32 (test_hash ''Abc123!'') @ kConfigFileComment) @ [CHR 0x0A])
      ((session [] Map.empty)\<lparr>password := Some other_password\<rparr>)
     = (Inl (external_error ''symmetric_decryption_failed''),
        (session [] Map.empty)\<lparr>password := Some other_password\<rparr>)"
  by (simp add: eval_defs sentinel_defs world_defs monad_defs size_t_sub_def)

subsection \<open>Login on a populated configuration\<close>

lemma seq_Inr:
  assumes "seq m f s = (Inr y, s')"
  obtains x s1 where "m s = (Inr x, s1)" and "f x s1 = (Inr y, s')"
  using assms by (auto simp: seq_def split: prod.splits sum.splits)

lemma derive_cong: "password s = password t \<Longrightarrow> fst (derive c s) = fst (derive c t)"
  by (simp add: derive_def SecurePassword_def monad_defs split: option.splits sum.splits)

lemma GetIds_frame:
  "\<exists>es. snd (GetIds c p s) = s\<lparr>trace := trace s @ es\<rparr> \<and> drive_events es = []"
proof -
  obtain r where d: "derive c s = (r, s)"
    using derive_state [of c s] by (cases "derive c s") simp
  show ?thesis
  proof (cases r)
    case (Inl e)
    then have "snd (GetIds c p s) = s\<lparr>trace := trace s @ []\<rparr>"
      by (simp add: GetIds_def seq_def d)
    then show ?thesis by (intro exI [of _ "[]"]) (simp add: drive_events_def)
  next
    case (Inr kv)
    then have "snd (GetIds c p s)
        = s\<lparr>trace := trace s @ [FileRead (path_append p kCredentialsFilename)]\<rparr>"
      by (cases kv) (simp add: GetIds_def seq_def d ReadFile_def lift_def
          split: option.splits sum.splits)
    then show ?thesis
      by (intro exI [of _ "[FileRead (path_append p kCredentialsFilename)]"])
        (simp add: drive_events_def)
  qed
qed

lemma GetIds_cong:
  assumes "password s = password t" and "files s = files t"
  shows "fst (GetIds c p s) = fst (GetIds c p t)"
proof -
  obtain r where d: "derive c s = (r, s)"
    using derive_state [of c s] by (cases "derive c s") simp
  have d': "derive c t = (r, t)"
    using derive_state [of c t] derive_cong [OF assms(1), of c] d
    by (cases "derive c t") simp
  show ?thesis
    by (cases r)
      (auto simp: GetIds_def seq_def d d' ReadFile_def lift_def assms(2)
        split: option.splits sum.splits prod.splits)
qed

lemma InitialiseService_result:
  assumes "InitialiseService c p a r s = (Inr (), s')"
  shows "s' = s\<lparr>trace := trace s @ [DriveReInitialiseService a p r]\<rparr>"
  using assms
  by (auto simp: InitialiseService_def CheckValid_def seq_def return_def ThrowError_def
      drive_call_def call_def split: if_splits option.splits)

lemma MountDrive_result:
  assumes "MountDrive c d s = (Inr (), s')"
  shows "s' = s\<lparr>trace := trace s @ [DriveMount d], drive := Some d\<rparr>"
  using assms
  by (auto simp: MountDrive_def seq_def call_def split: option.splits)

lemma ReadConfigFile_frame:
  "\<exists>es. snd (ReadConfigFile c s) = s\<lparr>trace := trace s @ es\<rparr> \<and> drive_events es = []"
proof -
  have "snd (ReadConfigFile c s) = s\<lparr>trace := trace s @ [FileRead (kConfigFilePath c)]\<rparr>
     \<or> snd (ReadConfigFile c s)
        = s\<lparr>trace := trace s @ [FileRead (kConfigFilePath c), configuration_error]\<rparr>"
    by (simp add: ReadConfigFile_def ifstream_content_def seq_def return_def emit_def Let_def
        split: prod.splits)
  then show ?thesis
  proof
    assume "snd (ReadConfigFile c s) = s\<lparr>trace := trace s @ [FileRead (kConfigFilePath c)]\<rparr>"
    then show ?thesis
      by (intro exI [of _ "[FileRead (kConfigFilePath c)]"]) (simp add: drive_events_def)
  next
    assume "snd (ReadConfigFile c s)
        = s\<lparr>trace := trace s @ [FileRead (kConfigFilePath c), configuration_error]\<rparr>"
    then show ?thesis
      by (intro exI [of _ "[FileRead (kConfigFilePath c), configuration_error]"])
        (simp add: drive_events_def)
  qed
qed

lemma ReadConfigFile_cong:
  "files s = files t \<Longrightarrow> fst (ReadConfigFile c s) = fst (ReadConfigFile c t)"
  by (simp add: ReadConfigFile_def ifstream_content_def seq_def return_def emit_def Let_def
      split: prod.splits)

lemma FinaliseInput_login_result:
  assumes "FinaliseInput True s = (Inr u, s')"
  shows "\<exists>p. password s = Some p \<and> s' = s\<lparr>password := Some (Finalise p)\<rparr>"
  using assms
  by (auto simp: FinaliseInput_def seq_def ThrowError_def return_def ResetConfirmationPassword_def
      Let_def split: option.splits if_splits)

lemma InitialiseServices_result:
  "InitialiseServices c rest s = (Inr (), s') \<Longrightarrow>
     \<exists>ids es. map (\<lambda>(p, a). fst (GetIds c p s)) rest = map Inr ids
       \<and> s' = s\<lparr>trace := trace s @ es\<rparr>
       \<and> drive_events es
           = map (\<lambda>((p, a), i). DriveReInitialiseService a p (snd i)) (zip rest ids)"
proof (induction rest arbitrary: s)
  case Nil
  then have "s' = s\<lparr>trace := trace s @ []\<rparr>" by (simp add: return_def)
  then show ?case by (intro exI [of _ "[]"]) (simp add: drive_events_def)
next
  case (Cons pa rest)
  obtain p a where pa: "pa = (p, a)" by (cases pa)
  from Cons.prems obtain i s1 where
      g: "GetIds c p s = (Inr i, s1)"
      and rest1: "seq (InitialiseService c p a (snd i)) (\<lambda>_. InitialiseServices c rest) s1
                   = (Inr (), s')"
    unfolding pa InitialiseServices.simps by (rule seq_Inr)
  from rest1 obtain u s2 where
      init: "InitialiseService c p a (snd i) s1 = (Inr u, s2)"
      and loop: "InitialiseServices c rest s2 = (Inr (), s')"
    by (rule seq_Inr)
  obtain es1 where s1: "s1 = s\<lparr>trace := trace s @ es1\<rparr>" and es1: "drive_events es1 = []"
    using GetIds_frame [of c p s] g by auto
  have s2: "s2 = s1\<lparr>trace := trace s1 @ [DriveReInitialiseService a p (snd i)]\<rparr>"
    using init by (intro InitialiseService_result) simp
  from Cons.IH [OF loop] obtain ids es where
      ids: "map (\<lambda>(p, a). fst (GetIds c p s2)) rest = map Inr ids"
      and s': "s' = s2\<lparr>trace := trace s2 @ es\<rparr>"
      and es: "drive_events es
           = map (\<lambda>((p, a), i). DriveReInitialiseService a p (snd i)) (zip rest ids)"
    by blast
  have same: "fst (GetIds c q s2) = fst (GetIds c q s)" for q
    by (rule GetIds_cong) (simp_all add: s1 s2)
  have "map (\<lambda>(p, a). fst (GetIds c p s)) (pa # rest) = map Inr (i # ids)"
    using ids g by (simp add: pa same)
  moreover have "s' = s\<lparr>trace := trace s @ (es1 @ DriveReInitialiseService a p (snd i) # es)\<rparr>"
    by (simp add: s' s2 s1)
  moreover have "drive_events (es1 @ DriveReInitialiseService a p (snd i) # es)
      = map (\<lambda>((p, a), i). DriveReInitialiseService a p (snd i)) (zip (pa # rest) (i # ids))"
    using es1 es by (simp add: drive_events_def pa)
  ultimately show ?case by blast
qed

text \<open>
  C7, as the code has it: for every \<^verbatim>\<open>Login\<close> call on a session not yet logged in,
  whose persisted mapping is non-empty, and that returns without error: the identities of
  every entry are recovered from its credential file, the drive is mounted on the drive
  root of the first entry, every entry, the first included, is registered with the drive
  under its alias, path and recovered service root, in the order of the map, and
  \<open>logged_in\<close> is true afterwards.
\<close>

theorem Login_nonempty_mapping:
  assumes "\<not> logged_in s"
    and "fst (ReadConfigFile c s) = Inr service_pairs"
    and "service_pairs \<noteq> []"
    and "Login c s = (Inr (), s')"
  shows "\<exists>ids. map (\<lambda>(storage_path, service_alias). fst (GetIds c storage_path s')) service_pairs
               = map Inr ids
          \<and> drive s' = Some (fst (hd ids))
          \<and> drive_events (trace s')
              = drive_events (trace s) @ DriveMount (fst (hd ids)) #
                  map (\<lambda>((storage_path, service_alias), i).
                         DriveReInitialiseService service_alias storage_path (snd i))
                    (zip service_pairs ids)
          \<and> logged_in s'"
proof -
  from assms(1,4) have
    "seq (FinaliseInput True) (\<lambda>_.
       seq (assert_no_confirmation_password c) (\<lambda>_.
       seq (ReadConfigFile c) (\<lambda>service_pairs.
       seq (case service_pairs of
              [] \<Rightarrow>
                seq (ReadFile (kConfigFilePath c)) (\<lambda>content.
                seq (CheckConfigFileContent c content) (\<lambda>_.
                seq (lift (Identity_ctor (RandomAlphaNumericString c 64))) (\<lambda>drive_root_id.
                MountDrive c drive_root_id)))
            | (storage_path, service_alias) # rest \<Rightarrow>
                seq (GetIds c storage_path) (\<lambda>ids.
                seq (MountDrive c (fst ids)) (\<lambda>_.
                seq (InitialiseService c storage_path service_alias (snd ids)) (\<lambda>_.
                InitialiseServices c rest)))) (\<lambda>_ s'.
       (Inr (), s'\<lparr>logged_in := True\<rparr>))))) s = (Inr (), s')"
    by (simp add: Login_def)
  then obtain u1 s1 where fin: "FinaliseInput True s = (Inr u1, s1)"
    and k1: "seq (assert_no_confirmation_password c) (\<lambda>_.
       seq (ReadConfigFile c) (\<lambda>service_pairs.
       seq (case service_pairs of
              [] \<Rightarrow>
                seq (ReadFile (kConfigFilePath c)) (\<lambda>content.
                seq (CheckConfigFileContent c content) (\<lambda>_.
                seq (lift (Identity_ctor (RandomAlphaNumericString c 64))) (\<lambda>drive_root_id.
                MountDrive c drive_root_id)))
            | (storage_path, service_alias) # rest \<Rightarrow>
                seq (GetIds c storage_path) (\<lambda>ids.
                seq (MountDrive c (fst ids)) (\<lambda>_.
                seq (InitialiseService c storage_path service_alias (snd ids)) (\<lambda>_.
                InitialiseServices c rest)))) (\<lambda>_ s'.
       (Inr (), s'\<lparr>logged_in := True\<rparr>)))) s1 = (Inr (), s')"
    by (rule seq_Inr)
  from k1 obtain u2 s1' where asrt: "assert_no_confirmation_password c s1 = (Inr u2, s1')"
    and k2: "seq (ReadConfigFile c) (\<lambda>service_pairs.
       seq (case service_pairs of
              [] \<Rightarrow>
                seq (ReadFile (kConfigFilePath c)) (\<lambda>content.
                seq (CheckConfigFileContent c content) (\<lambda>_.
                seq (lift (Identity_ctor (RandomAlphaNumericString c 64))) (\<lambda>drive_root_id.
                MountDrive c drive_root_id)))
            | (storage_path, service_alias) # rest \<Rightarrow>
                seq (GetIds c storage_path) (\<lambda>ids.
                seq (MountDrive c (fst ids)) (\<lambda>_.
                seq (InitialiseService c storage_path service_alias (snd ids)) (\<lambda>_.
                InitialiseServices c rest)))) (\<lambda>_ s'.
       (Inr (), s'\<lparr>logged_in := True\<rparr>))) s1' = (Inr (), s')"
    by (rule seq_Inr)
  from k2 obtain m s2 where rd: "ReadConfigFile c s1' = (Inr m, s2)"
    and k3: "seq (case m of
              [] \<Rightarrow>
                seq (ReadFile (kConfigFilePath c)) (\<lambda>content.
                seq (CheckConfigFileContent c content) (\<lambda>_.
                seq (lift (Identity_ctor (RandomAlphaNumericString c 64))) (\<lambda>drive_root_id.
                MountDrive c drive_root_id)))
            | (storage_path, service_alias) # rest \<Rightarrow>
                seq (GetIds c storage_path) (\<lambda>ids.
                seq (MountDrive c (fst ids)) (\<lambda>_.
                seq (InitialiseService c storage_path service_alias (snd ids)) (\<lambda>_.
                InitialiseServices c rest)))) (\<lambda>_ s'.
       (Inr (), s'\<lparr>logged_in := True\<rparr>)) s2 = (Inr (), s')"
    by (rule seq_Inr)
  obtain pw where pw: "password s = Some pw" and s1: "s1 = s\<lparr>password := Some (Finalise pw)\<rparr>"
    using FinaliseInput_login_result [OF fin] by blast
  have s1': "s1' = s1"
    using asrt by (simp add: assert_no_confirmation_password_def split: if_splits)
  have m: "m = service_pairs"
    using ReadConfigFile_cong [of s1 s c] rd assms(2) by (simp add: s1 s1')
  obtain es2 where s2: "s2 = s1\<lparr>trace := trace s1 @ es2\<rparr>" and es2: "drive_events es2 = []"
    using ReadConfigFile_frame [of c s1] rd by (auto simp: s1')
  obtain p a rest where sp: "service_pairs = (p, a) # rest"
    using assms(3) by (cases service_pairs) auto
  from k3 obtain u3 s6 where
      body: "seq (GetIds c p) (\<lambda>ids.
                seq (MountDrive c (fst ids)) (\<lambda>_.
                seq (InitialiseService c p a (snd ids)) (\<lambda>_.
                InitialiseServices c rest))) s2 = (Inr u3, s6)"
      and fin': "(Inr (), s6\<lparr>logged_in := True\<rparr>) = (Inr (), s')"
    unfolding m sp by (rule seq_Inr) simp
  from body obtain i s3 where g: "GetIds c p s2 = (Inr i, s3)"
      and k4: "seq (MountDrive c (fst i)) (\<lambda>_.
                seq (InitialiseService c p a (snd i)) (\<lambda>_.
                InitialiseServices c rest)) s3 = (Inr u3, s6)"
    by (rule seq_Inr)
  from k4 obtain u4 s4 where mnt: "MountDrive c (fst i) s3 = (Inr u4, s4)"
      and k5: "seq (InitialiseService c p a (snd i)) (\<lambda>_. InitialiseServices c rest) s4
                = (Inr u3, s6)"
    by (rule seq_Inr)
  from k5 obtain u5 s5 where init: "InitialiseService c p a (snd i) s4 = (Inr u5, s5)"
      and loop: "InitialiseServices c rest s5 = (Inr u3, s6)"
    by (rule seq_Inr)
  obtain es3 where s3: "s3 = s2\<lparr>trace := trace s2 @ es3\<rparr>" and es3: "drive_events es3 = []"
    using GetIds_frame [of c p s2] g by auto
  have s4: "s4 = s3\<lparr>trace := trace s3 @ [DriveMount (fst i)], drive := Some (fst i)\<rparr>"
    using mnt by (intro MountDrive_result) simp
  have s5: "s5 = s4\<lparr>trace := trace s4 @ [DriveReInitialiseService a p (snd i)]\<rparr>"
    using init by (intro InitialiseService_result) simp
  obtain ids es where
      ids: "map (\<lambda>(p, a). fst (GetIds c p s5)) rest = map Inr ids"
      and s6: "s6 = s5\<lparr>trace := trace s5 @ es\<rparr>"
      and es: "drive_events es
           = map (\<lambda>((p, a), i). DriveReInitialiseService a p (snd i)) (zip rest ids)"
    using InitialiseServices_result [of c rest s5 s6] loop by auto
  have s': "s' = s6\<lparr>logged_in := True\<rparr>"
    using fin' by simp
  have same5: "fst (GetIds c q s') = fst (GetIds c q s5)" for q
    by (rule GetIds_cong) (simp_all add: s' s6)
  have same2: "fst (GetIds c q s') = fst (GetIds c q s2)" for q
    by (rule GetIds_cong) (simp_all add: s' s6 s5 s4 s3)
  have "map (\<lambda>(storage_path, service_alias). fst (GetIds c storage_path s')) service_pairs
      = map Inr (i # ids)"
  proof -
    have "fst (GetIds c p s') = Inr i"
      using g by (simp add: same2)
    moreover have "map (\<lambda>(p, a). fst (GetIds c p s')) rest = map Inr ids"
      using ids by (simp add: same5)
    ultimately show ?thesis by (simp add: sp)
  qed
  moreover have "drive s' = Some (fst (hd (i # ids)))"
    by (simp add: s' s6 s5 s4)
  moreover have "drive_events (trace s')
      = drive_events (trace s) @ DriveMount (fst (hd (i # ids))) #
          map (\<lambda>((storage_path, service_alias), i).
                 DriveReInitialiseService service_alias storage_path (snd i))
            (zip service_pairs (i # ids))"
    using es2 es3 es by (simp add: s' s6 s5 s4 s3 s2 s1 sp drive_events_def)
  moreover have "logged_in s'"
    by (simp add: s')
  ultimately show ?thesis by blast
qed

theorem Login_nonempty_mapping_witness:
  "fst (Login test_world cold_session) = Inr ()
   \<and> logged_in (snd (Login test_world cold_session))
   \<and> drive (snd (Login test_world cold_session)) = Some rootA
   \<and> drive_events (trace (snd (Login test_world cold_session)))
      = [DriveMount rootA,
         DriveReInitialiseService ''music'' ''/data/music'' rootB,
         DriveReInitialiseService ''photos'' ''/data/photos'' rootC]"
  using Login_nonempty_mapping [of cold_session test_world
      "[(''/data/music'', ''music''), (''/data/photos'', ''photos'')]"
      "snd (Login test_world cold_session)"]
  by (simp add: login_defs eval_defs world_defs monad_defs)

text \<open>
  C7 as stated fails: it holds for the calls that return. With a password that does not
  decrypt the credential file of the first entry, the call raises the cipher's error
  before any mount, and \<open>logged_in\<close> stays false. On a session already logged in the
  call returns at once and mounts nothing.
\<close>

theorem Login_nonempty_mapping_counterexample:
  "fst (ReadConfigFile test_world
          (cold_session\<lparr>password := Some other_password\<rparr>))
     = Inr [(''/data/music'', ''music''), (''/data/photos'', ''photos'')]
   \<and> fst (Login test_world
          (cold_session\<lparr>password := Some other_password\<rparr>))
     = Inl (external_error ''symmetric_decryption_failed'')
   \<and> \<not> logged_in (snd (Login test_world
          (cold_session\<lparr>password := Some other_password\<rparr>)))
   \<and> drive_events (trace (snd (Login test_world
          (cold_session\<lparr>password := Some other_password\<rparr>))))
     = []
   \<and> trace (snd (Login test_world (session [] (files cold_session)))) = []"
  by (simp add: login_defs eval_defs other_password_def world_defs monad_defs)

end
